theory Spec2Isabelle
  imports Complex_Main "HOL-Library.Sublist" "HOL-Library.Char_ord" "HOL-Library.List_Lexorder"
    "HOL-Library.Product_Lexorder"
begin

section \<open>The Mac Notes SQLite plugin (plaso/parsers/sqlite\_plugins/mac\_notes.py)\<close>

subsection \<open>The tag-stripping regular expression\<close>

text \<open>
  \<^verbatim>\<open>re.sub(r'(<\/?(div|body|span|b|table|tr|td|tbody|p).*>\n?)', '', body)\<close>

  The pattern is matched the way Python's backtracking matcher explores it: every
  choice point is tried in priority order and the first success wins. The optional
  slash is tried present before absent, the alternatives in the order they are written,
  \<^verbatim>\<open>.*\<close> longest first (\<^verbatim>\<open>.\<close> is every character but the line feed), and
  \<^verbatim>\<open>\n?\<close> takes the line feed when there is one. Each matcher returns the text that
  remains after the match, or \<open>None\<close> when there is no match at this position.
\<close>

definition newline :: char where
  "newline = CHR 0x0A"

definition tag_names :: "string list" where
  "tag_names = [''div'', ''body'', ''span'', ''b'', ''table'', ''tr'', ''td'', ''tbody'', ''p'']"

fun match_literal :: "string \<Rightarrow> string \<Rightarrow> string option" where
  "match_literal [] s = Some s"
| "match_literal (p # ps) [] = None"
| "match_literal (p # ps) (c # cs) = (if p = c then match_literal ps cs else None)"

text \<open>\<^verbatim>\<open>.*>\<close>: consume one more character when that leads to a match, otherwise the
  character here has to be the closing bracket.\<close>

fun match_dotstar_gt :: "string \<Rightarrow> string option" where
  "match_dotstar_gt [] = None"
| "match_dotstar_gt (c # cs) =
     (if c = newline then None
      else (case match_dotstar_gt cs of
              Some r \<Rightarrow> Some r
            | None \<Rightarrow> if c = CHR ''>'' then Some cs else None))"

text \<open>\<^verbatim>\<open>\n?\<close>\<close>

fun match_opt_newline :: "string \<Rightarrow> string" where
  "match_opt_newline [] = []"
| "match_opt_newline (c # cs) = (if c = newline then cs else c # cs)"

text \<open>\<^verbatim>\<open>(div|body|...|p).*>\n?\<close>\<close>

fun match_alternatives :: "string list \<Rightarrow> string \<Rightarrow> string option" where
  "match_alternatives [] s = None"
| "match_alternatives (n # ns) s =
     (case match_literal n s of
        None \<Rightarrow> match_alternatives ns s
      | Some r \<Rightarrow>
          (case match_dotstar_gt r of
             None \<Rightarrow> match_alternatives ns s
           | Some r' \<Rightarrow> Some (match_opt_newline r')))"

text \<open>The whole pattern, anchored at the head of the text.\<close>

fun match_tag :: "string \<Rightarrow> string option" where
  "match_tag [] = None"
| "match_tag (c # cs) =
     (if c \<noteq> CHR ''<'' then None
      else (case cs of
              [] \<Rightarrow> None
            | d # ds \<Rightarrow>
                if d = CHR ''/'' then
                  (case match_alternatives tag_names ds of
                     Some r \<Rightarrow> Some r
                   | None \<Rightarrow> match_alternatives tag_names cs)
                else match_alternatives tag_names cs))"

lemma match_literal_length: "match_literal p s = Some r \<Longrightarrow> length r \<le> length s"
  by (induction p s rule: match_literal.induct) (auto split: if_splits)

lemma match_dotstar_gt_length: "match_dotstar_gt s = Some r \<Longrightarrow> length r < length s"
  by (induction s arbitrary: r) (fastforce split: if_splits option.splits)+

lemma match_opt_newline_length: "length (match_opt_newline s) \<le> length s"
  by (cases s) auto

lemma match_alternatives_length:
  "match_alternatives ns s = Some r \<Longrightarrow> length r < length s"
proof (induction ns)
  case Nil
  then show ?case by simp
next
  case (Cons n ns)
  show ?case
  proof (cases "match_literal n s")
    case None
    with Cons show ?thesis by simp
  next
    case (Some r1)
    note lit = this
    show ?thesis
    proof (cases "match_dotstar_gt r1")
      case None
      with lit Cons show ?thesis by simp
    next
      case (Some r2)
      with lit Cons.prems have "r = match_opt_newline r2" by simp
      moreover have "length r2 < length r1" using Some by (rule match_dotstar_gt_length)
      moreover have "length r1 \<le> length s" using lit by (rule match_literal_length)
      moreover have "length (match_opt_newline r2) \<le> length r2"
        by (rule match_opt_newline_length)
      ultimately show ?thesis by simp
    qed
  qed
qed

lemma match_tag_length: "match_tag s = Some r \<Longrightarrow> length r < length s"
proof (cases s)
  case Nil
  then show "match_tag s = Some r \<Longrightarrow> ?thesis" by simp
next
  case (Cons c cs)
  assume m: "match_tag s = Some r"
  show ?thesis
  proof (cases cs)
    case Nil
    with Cons m show ?thesis by (simp split: if_splits)
  next
    case (Cons d ds)
    with \<open>s = c # cs\<close> m
    have "match_alternatives tag_names ds = Some r \<or> match_alternatives tag_names cs = Some r"
      by (auto split: if_splits option.splits)
    then show ?thesis
      using match_alternatives_length [of tag_names ds r]
        match_alternatives_length [of tag_names cs r] Cons \<open>s = c # cs\<close>
      by auto
  qed
qed

text \<open>\<^verbatim>\<open>re.sub(pattern, '', s)\<close>: scan from the left; a match is dropped and the scan
  goes on behind it, a character where nothing matches is copied.\<close>

function re_sub :: "string \<Rightarrow> string" where
  "re_sub [] = []"
| "re_sub (c # cs) =
     (case match_tag (c # cs) of
        Some r \<Rightarrow> re_sub r
      | None \<Rightarrow> c # re_sub cs)"
  by pat_completeness auto
termination
proof (relation "measure length")
  fix c cs r
  assume "match_tag (c # cs) = Some r"
  then have "length r < length (c # cs)" by (rule match_tag_length)
  then show "(r, c # cs) \<in> measure length" by simp
qed simp_all

subsection \<open>The parse tree and its serialisation\<close>

text \<open>
  \<^verbatim>\<open>BeautifulSoup(zhtmlstring, features='html.parser')\<close> builds a tree of tags and
  strings. The tree is modelled as the library holds it: a tag has a name, its
  attributes in order and its contents; a string is either plain text or a preformatted
  string (comment, CDATA section, declaration, doctype, processing instruction), which
  carries the prefix and suffix it is written with.

  The parser itself (Python's \<^verbatim>\<open>html.parser\<close> driving the tree builder) is not part
  of this module: it is a parameter of the model, a total function from the markup to
  the contents of the document object.
\<close>

datatype element =
    NavigableString string
  | PreformattedString string string string
  | Tag string "(string \<times> string) list" "element list"

type_synonym html_parser = "string \<Rightarrow> element list"

datatype error = TypeError | AttributeError | InvalidEvent | ConversionError

text \<open>A value of a column of the row, as \<^verbatim>\<open>sqlite3\<close> hands it over: \<^verbatim>\<open>None\<close> for
  NULL, an \<^verbatim>\<open>int\<close>, a \<^verbatim>\<open>float\<close> or a \<^verbatim>\<open>str\<close>.\<close>

datatype sql_value = SqlNull | SqlInteger int | SqlReal real | SqlText string

text \<open>The constructor takes the length of its markup before anything else, which raises
  \<^verbatim>\<open>TypeError\<close> on \<^verbatim>\<open>None\<close> and on a number.\<close>

definition BeautifulSoup :: "html_parser \<Rightarrow> sql_value \<Rightarrow> error + element list" where
  "BeautifulSoup parser markup =
     (case markup of SqlText s \<Rightarrow> Inr (parser s) | _ \<Rightarrow> Inl TypeError)"

text \<open>The truth value of an element, as \<^verbatim>\<open>if self.next_sibling\<close> reads it: a string is
  true when it is not empty, a tag always.\<close>

fun truthy_element :: "element \<Rightarrow> bool" where
  "truthy_element (NavigableString s) = (s \<noteq> [])"
| "truthy_element (PreformattedString p s q) = (s \<noteq> [])"
| "truthy_element (Tag n a cs) = True"

fun next_sibling :: "element list \<Rightarrow> bool" where
  "next_sibling [] = False"
| "next_sibling (c # cs) = truthy_element c"

text \<open>\<^verbatim>\<open>soup.body\<close> is \<^verbatim>\<open>soup.find('body')\<close>: the first tag named \<^verbatim>\<open>body\<close> among the
  descendants in document order, or \<^verbatim>\<open>None\<close>. The tag is returned with the truth value
  of its next sibling, which its serialisation reads.\<close>

fun find_tag :: "string \<Rightarrow> element list \<Rightarrow> (element \<times> bool) option" where
  "find_tag name [] = None"
| "find_tag name (Tag n a contents # cs) =
     (if n = name then Some (Tag n a contents, next_sibling cs)
      else (case find_tag name contents of
              Some r \<Rightarrow> Some r
            | None \<Rightarrow> find_tag name cs))"
| "find_tag name (c # cs) = find_tag name cs"

definition soup_body :: "element list \<Rightarrow> (element \<times> bool) option" where
  "soup_body soup = find_tag ''body'' soup"

text \<open>The formatter \<^verbatim>\<open>minimal\<close>: ampersands and angle brackets become entities.\<close>

fun substitute_xml :: "string \<Rightarrow> string" where
  "substitute_xml [] = []"
| "substitute_xml (c # cs) =
     (if c = CHR ''&'' then ''&amp;''
      else if c = CHR ''<'' then ''&lt;''
      else if c = CHR ''>'' then ''&gt;''
      else [c]) @ substitute_xml cs"

fun replace_quot :: "string \<Rightarrow> string" where
  "replace_quot [] = []"
| "replace_quot (c # cs) = (if c = CHR 0x22 then ''&quot;'' else [c]) @ replace_quot cs"

definition quoted_attribute_value :: "string \<Rightarrow> string" where
  "quoted_attribute_value v =
     (if CHR 0x22 \<in> set v then
        (if CHR 0x27 \<in> set v then [CHR 0x22] @ replace_quot v @ [CHR 0x22]
         else [CHR 0x27] @ v @ [CHR 0x27])
      else [CHR 0x22] @ v @ [CHR 0x22])"

fun attribute_string :: "(string \<times> string) list \<Rightarrow> string" where
  "attribute_string [] = []"
| "attribute_string ((key, val) # attrs) =
     '' '' @ key @ ''='' @ quoted_attribute_value (substitute_xml val) @ attribute_string attrs"

text \<open>The formatter hands the attributes over as \<^verbatim>\<open>sorted(tag.attrs.items())\<close>: in the
  order of their names, strings being compared character by character.\<close>

definition formatter_attributes :: "(string \<times> string) list \<Rightarrow> (string \<times> string) list" where
  "formatter_attributes attrs = sort attrs"

definition empty_element_tags :: "string list" where
  "empty_element_tags =
     [''area'', ''base'', ''br'', ''col'', ''embed'', ''hr'', ''img'', ''input'', ''keygen'',
      ''link'', ''menuitem'', ''meta'', ''param'', ''source'', ''track'', ''wbr'',
      ''basefont'', ''bgsound'', ''command'', ''frame'', ''image'', ''isindex'', ''nextid'',
      ''spacer'']"

definition preserve_whitespace_tags :: "string list" where
  "preserve_whitespace_tags = [''pre'', ''textarea'']"

definition cdata_containing_tags :: "string list" where
  "cdata_containing_tags = [''script'', ''style'']"

definition is_empty_element :: "string \<Rightarrow> element list \<Rightarrow> bool" where
  "is_empty_element name contents \<longleftrightarrow> contents = [] \<and> name \<in> set empty_element_tags"

definition should_pretty_print :: "string \<Rightarrow> nat option \<Rightarrow> bool" where
  "should_pretty_print name indent_level \<longleftrightarrow>
     indent_level \<noteq> None \<and> name \<notin> set preserve_whitespace_tags"

text \<open>A character of the model is a code point below 256. \<^verbatim>\<open>str.strip()\<close> removes the
  characters for which \<^verbatim>\<open>str.isspace()\<close> holds; below 256 these are the ASCII white
  space, the separators U+001C to U+001F, the next-line character U+0085 and the no-break
  space U+00A0.\<close>

definition isspace :: "char \<Rightarrow> bool" where
  "isspace c \<longleftrightarrow>
     c \<in> set [CHR 0x20, CHR 0x09, CHR 0x0A, CHR 0x0B, CHR 0x0C, CHR 0x0D,
              CHR 0x1C, CHR 0x1D, CHR 0x1E, CHR 0x1F, CHR 0x85, CHR 0xA0]"

definition strip :: "string \<Rightarrow> string" where
  "strip s = rev (dropWhile isspace (rev (dropWhile isspace s)))"

definition indent_space :: "nat option \<Rightarrow> string" where
  "indent_space indent_level =
     (case indent_level of None \<Rightarrow> [] | Some n \<Rightarrow> replicate (n - 1) CHR '' '')"

text \<open>A string is written through the formatter unless its parent holds character
  data; a preformatted string is written as it is, between its prefix and suffix.\<close>

definition output_ready :: "string \<Rightarrow> string \<Rightarrow> string" where
  "output_ready parent s =
     (if parent \<in> set cdata_containing_tags then s else substitute_xml s)"

text \<open>The part of the loop of \<^verbatim>\<open>decode_contents\<close> that writes one string.\<close>

definition decode_text :: "nat option \<Rightarrow> string \<Rightarrow> string \<Rightarrow> string" where
  "decode_text indent_level name text0 =
     (let text = (if text0 \<noteq> [] \<and> indent_level \<noteq> None \<and> indent_level \<noteq> Some 0
                       \<and> name \<noteq> ''pre''
                  then strip text0 else text0)
      in if text \<noteq> [] then
           (if indent_level \<noteq> None \<and> name \<noteq> ''pre'' then indent_space indent_level else [])
           @ text
           @ (if indent_level \<noteq> None \<and> name \<noteq> ''pre'' then [newline] else [])
         else [])"

text \<open>\<^verbatim>\<open>Tag.decode\<close> and \<^verbatim>\<open>Tag.decode_contents\<close>. The first argument is the indent
  level (\<^verbatim>\<open>None\<close> outside pretty-printing); \<open>decode\<close> also takes the truth value of the
  tag's next sibling.\<close>

fun decode :: "nat option \<Rightarrow> bool \<Rightarrow> string \<Rightarrow> (string \<times> string) list \<Rightarrow> element list \<Rightarrow> string"
and decode_contents :: "nat option \<Rightarrow> string \<Rightarrow> element list \<Rightarrow> string" where
  "decode indent_level nxt name attrs contents =
     (let close = (if is_empty_element name contents then ''/'' else []);
          closeTag = (if is_empty_element name contents then [] else ''</'' @ name @ ''>'');
          pretty_print = should_pretty_print name indent_level;
          inner = (if pretty_print then decode_contents (map_option Suc indent_level) name contents
                   else decode_contents None name contents)
      in (if indent_level \<noteq> None then indent_space indent_level else [])
         @ ''<'' @ name @ attribute_string (formatter_attributes attrs) @ close @ ''>''
         @ (if pretty_print then [newline] else [])
         @ inner
         @ (if pretty_print \<and> inner \<noteq> [] \<and> last inner \<noteq> newline then [newline] else [])
         @ (if pretty_print \<and> closeTag \<noteq> [] then indent_space indent_level else [])
         @ closeTag
         @ (if indent_level \<noteq> None \<and> closeTag \<noteq> [] \<and> nxt then [newline] else []))"
| "decode_contents indent_level name [] = []"
| "decode_contents indent_level name (Tag n a contents # cs) =
     decode indent_level (next_sibling cs) n a contents @ decode_contents indent_level name cs"
| "decode_contents indent_level name (NavigableString s # cs) =
     decode_text indent_level name (output_ready name s) @ decode_contents indent_level name cs"
| "decode_contents indent_level name (PreformattedString p s q # cs) =
     decode_text indent_level name (p @ s @ q) @ decode_contents indent_level name cs"

text \<open>\<^verbatim>\<open>prettify()\<close> is \<^verbatim>\<open>decode(True)\<close>: indent level one.\<close>

fun prettify :: "element \<times> bool \<Rightarrow> string" where
  "prettify (Tag name attrs contents, nxt) = decode (Some 1) nxt name attrs contents"
| "prettify (c, nxt) = []"

subsection \<open>The sanitizer\<close>

text \<open>
  \<^verbatim>\<open>
  def _GetNoteText(self, zhtmlstring):
    soup = BeautifulSoup(zhtmlstring, features='html.parser')
    body = soup.body.prettify()
    body = re.sub(
        r'(<\/?(div|body|span|b|table|tr|td|tbody|p).*>\n?)', '', body)
    return body
  \<close>
  When the document has no body tag, \<^verbatim>\<open>soup.body\<close> is \<^verbatim>\<open>None\<close> and the call of
  \<^verbatim>\<open>prettify\<close> on it raises \<^verbatim>\<open>AttributeError\<close>.
\<close>

definition GetNoteText :: "html_parser \<Rightarrow> sql_value \<Rightarrow> error + string" where
  "GetNoteText parser zhtmlstring =
     (case BeautifulSoup parser zhtmlstring of
        Inl e \<Rightarrow> Inl e
      | Inr soup \<Rightarrow>
          (case soup_body soup of
             None \<Rightarrow> Inl AttributeError
           | Some body \<Rightarrow> Inr (re_sub (prettify body))))"

subsection \<open>Bodies made of listed tags\<close>

text \<open>A body is listed when every tag in it bears one of the names of the pattern and has
  no line feed in its attributes, and every string in it is plain text, not empty (the
  parser builds no empty string).\<close>

fun listed :: "element \<Rightarrow> bool" where
  "listed (Tag n a cs) \<longleftrightarrow>
     n \<in> set tag_names
     \<and> (\<forall>(key, val) \<in> set a. newline \<notin> set key \<and> newline \<notin> set val)
     \<and> (\<forall>c \<in> set cs. listed c)"
| "listed (NavigableString s) \<longleftrightarrow> s \<noteq> []"
| "listed (PreformattedString p s q) \<longleftrightarrow> False"

text \<open>The text-only rendering of an element at an indent level: what is left of the
  pretty-printed element when every line that holds a tag is cut down to its
  indentation. A string stays on a line of its own, stripped of surrounding white space
  and with its entities substituted, behind its indentation.\<close>

fun text_only :: "nat \<Rightarrow> element \<Rightarrow> string" where
  "text_only k (Tag n a cs) =
     replicate (k - 1) CHR '' '' @ concat (map (text_only (Suc k)) cs) @ replicate (k - 1) CHR '' ''"
| "text_only k (NavigableString s) =
     (if strip (substitute_xml s) = [] then []
      else replicate (k - 1) CHR '' '' @ strip (substitute_xml s) @ [newline])"
| "text_only k (PreformattedString p s q) = []"

text \<open>The strings of an element, in document order.\<close>

fun all_strings :: "element \<Rightarrow> string list" where
  "all_strings (Tag n a cs) = concat (map all_strings cs)"
| "all_strings (NavigableString s) = [s]"
| "all_strings (PreformattedString p s q) = []"

text \<open>A text that the serialiser writes unchanged: no white space at either end, no
  ampersand and no angle bracket.\<close>

definition plain_text :: "string \<Rightarrow> bool" where
  "plain_text s \<longleftrightarrow>
     s \<noteq> [] \<and> \<not> isspace (hd s) \<and> \<not> isspace (last s)
     \<and> CHR ''&'' \<notin> set s \<and> CHR ''<'' \<notin> set s \<and> CHR ''>'' \<notin> set s"

text \<open>The line feed that \<^verbatim>\<open>decode\<close> adds behind contents that do not end with one.\<close>

definition end_line :: "string \<Rightarrow> string" where
  "end_line x = (if x \<noteq> [] \<and> last x \<noteq> newline then [newline] else [])"

subsection \<open>Tags in the pretty-printed part of a body\<close>




subsection \<open>Row processing\<close>

text \<open>Modelled from the spec: \<^verbatim>\<open>SQLitePlugin._GetRowValue\<close> (plaso/parsers/sqlite\_plugins/interface.py)
  is not among the sources. It is the named-column lookup of the row, with
  value-or-absent semantics per column; the row is the function from the column names
  of the query to their values.\<close>

type_synonym row = "string \<Rightarrow> sql_value"

definition GetRowValue :: "row \<Rightarrow> string \<Rightarrow> sql_value" where
  "GetRowValue row value_name = row value_name"

text \<open>Modelled from the spec: the constants of plaso/lib/definitions.py are not among the
  sources. The spec's kinds of event are CREATION and LAST\_MODIFIED, here
  \<open>TIME_DESCRIPTION_CREATION\<close> and \<open>TIME_DESCRIPTION_MODIFICATION\<close>; the module
  also names \<open>TIME_DESCRIPTION_LAST_USED\<close>, a constant of its own.\<close>

datatype time_description =
    TIME_DESCRIPTION_CREATION
  | TIME_DESCRIPTION_MODIFICATION
  | TIME_DESCRIPTION_LAST_USED

definition event_kinds :: "time_description set" where
  "event_kinds = {TIME_DESCRIPTION_CREATION, TIME_DESCRIPTION_MODIFICATION}"

text \<open>\<^verbatim>\<open>dfdatetime.cocoa_time.CocoaTime(timestamp=...)\<close> keeps the value it is given.\<close>

datatype cocoa_time = CocoaTime (cocoa_timestamp: sql_value)

text \<open>The conversion of a timestamp that is set into microseconds since the Unix epoch
  is the work of dfdatetime, a package of its own: it is a parameter of the model. For a
  value of the column it gives the microseconds, or nothing, or the exception that the
  conversion raises. For a timestamp that is not set (\<^verbatim>\<open>None\<close>),
  \<^verbatim>\<open>GetPlasoTimestamp\<close> gives \<^verbatim>\<open>None\<close> without converting anything.\<close>

type_synonym normalizer = "sql_value \<Rightarrow> error + int option"

definition GetPlasoTimestamp :: "normalizer \<Rightarrow> cocoa_time \<Rightarrow> error + int option" where
  "GetPlasoTimestamp convert dt =
     (case cocoa_timestamp dt of SqlNull \<Rightarrow> Inr None | v \<Rightarrow> convert v)"

text \<open>Modelled from the spec: \<^verbatim>\<open>time_events.DateTimeValuesEvent\<close>
  (plaso/containers/time\_events.py) is not among the sources. An event is an instant,
  obtained from the date-time value by the normalizer, and a kind; where the normalizer
  fails, no event is built.\<close>

record event =
  timestamp :: "int option"
  timestamp_desc :: time_description

definition DateTimeValuesEvent ::
  "normalizer \<Rightarrow> cocoa_time \<Rightarrow> time_description \<Rightarrow> error + event" where
  "DateTimeValuesEvent convert dt description =
     (case GetPlasoTimestamp convert dt of
        Inl e \<Rightarrow> Inl e
      | Inr t \<Rightarrow> Inr \<lparr>timestamp = t, timestamp_desc = description\<rparr>)"

text \<open>\<^verbatim>\<open>class MacNotesZhtmlstringEventData\<close>, with the attributes as the row handler
  assigns them.\<close>

record MacNotesZhtmlstringEventData =
  title :: sql_value
  note_text :: string
  zhtmlstring :: sql_value

text \<open>Modelled from the spec: the parser mediator (plaso/parsers/mediator.py) is not
  among the sources. It is the output sink: it accepts pairs of an event and its event
  data, kept here in the order they are produced. An event is an absolute point in
  time: the sink refuses, with the exception \<^verbatim>\<open>InvalidEvent\<close>, an event whose
  timestamp is not set or does not fit a signed 64-bit integer, and stores nothing.\<close>

record parser_mediator =
  produced :: "(event \<times> MacNotesZhtmlstringEventData) list"

definition INT64_MIN :: int where
  "INT64_MIN = - (2 ^ 63)"

definition INT64_MAX :: int where
  "INT64_MAX = 2 ^ 63 - 1"

definition ProduceEventWithEventData ::
  "parser_mediator \<Rightarrow> event \<Rightarrow> MacNotesZhtmlstringEventData \<Rightarrow> error + parser_mediator" where
  "ProduceEventWithEventData mediator ev event_data =
     (case timestamp ev of
        None \<Rightarrow> Inl InvalidEvent
      | Some t \<Rightarrow>
          if t < INT64_MIN \<or> INT64_MAX < t then Inl InvalidEvent
          else Inr (mediator\<lparr>produced := produced mediator @ [(ev, event_data)]\<rparr>))"

text \<open>The truth value of a column value, as \<^verbatim>\<open>if modified_timestamp:\<close> reads it.\<close>

fun truth :: "sql_value \<Rightarrow> bool" where
  "truth SqlNull = False"
| "truth (SqlInteger i) = (i \<noteq> 0)"
| "truth (SqlReal x) = (x \<noteq> 0)"
| "truth (SqlText s) = (s \<noteq> [])"

text \<open>
  \<^verbatim>\<open>
  def ParseZHTMLSTRINGRow(self, parser_mediator, query, row, **unused_kwargs):
    query_hash = hash(query)
    event_data = MacNotesZhtmlstringEventData()

    title = self._GetRowValue(query_hash, row, 'title')
    event_data.title = title

    zhtmlstring = self._GetRowValue(query_hash, row, 'zhtmlstring')
    event_data.zhtmlstring = zhtmlstring

    note_text = self._GetNoteText(zhtmlstring)
    event_data.note_text = note_text

    create_timestamp = self._GetRowValue(query_hash, row, 'timestamp')
    create_date_time = dfdatetime_cocoa_time.CocoaTime(
        timestamp=create_timestamp)
    create_event = time_events.DateTimeValuesEvent(
        create_date_time, definitions.TIME_DESCRIPTION_CREATION)
    parser_mediator.ProduceEventWithEventData(create_event, event_data)

    modified_timestamp = self._GetRowValue(
        query_hash, row, 'last_modified_time')
    if modified_timestamp:
      modified_date_time = dfdatetime_cocoa_time.CocoaTime(
          timestamp=modified_timestamp)
      modified_event = time_events.DateTimeValuesEvent(
          modified_date_time, definitions.TIME_DESCRIPTION_LAST_USED)
      parser_mediator.ProduceEventWithEventData(modified_event, event_data)
  \<close>
  The mediator is passed in and returned. The result carries the exception that left
  the function, if any, together with the mediator as it is at that moment. The query
  and its hash only select a cache of column indices inside \<^verbatim>\<open>_GetRowValue\<close>; they
  are left out.
\<close>

definition ParseZHTMLSTRINGRow ::
  "html_parser \<Rightarrow> normalizer \<Rightarrow> parser_mediator \<Rightarrow> row \<Rightarrow> error option \<times> parser_mediator"
where
  "ParseZHTMLSTRINGRow parser convert mediator row =
     (let title' = GetRowValue row ''title'';
          zhtmlstring' = GetRowValue row ''zhtmlstring''
      in case GetNoteText parser zhtmlstring' of
           Inl e \<Rightarrow> (Some e, mediator)
         | Inr note_text' \<Rightarrow>
             (let event_data = \<lparr>title = title', note_text = note_text',
                                zhtmlstring = zhtmlstring'\<rparr>;
                  create_timestamp = GetRowValue row ''timestamp'';
                  create_date_time = CocoaTime create_timestamp
              in case DateTimeValuesEvent convert create_date_time TIME_DESCRIPTION_CREATION of
                   Inl e \<Rightarrow> (Some e, mediator)
                 | Inr create_event \<Rightarrow>
                     (case ProduceEventWithEventData mediator create_event event_data of
                        Inl e \<Rightarrow> (Some e, mediator)
                      | Inr mediator1 \<Rightarrow>
                          (let modified_timestamp = GetRowValue row ''last_modified_time''
                           in if truth modified_timestamp then
                                (let modified_date_time = CocoaTime modified_timestamp
                                 in case DateTimeValuesEvent convert modified_date_time
                                           TIME_DESCRIPTION_LAST_USED of
                                      Inl e \<Rightarrow> (Some e, mediator1)
                                    | Inr modified_event \<Rightarrow>
                                        (case ProduceEventWithEventData mediator1 modified_event
                                                event_data of
                                           Inl e \<Rightarrow> (Some e, mediator1)
                                         | Inr mediator2 \<Rightarrow> (None, mediator2)))
                              else (None, mediator1)))))"

text \<open>A column value is accepted when an event is built from it and the sink takes the
  event: the value is set, the normalizer gives its microseconds, and they fit a signed
  64-bit integer.\<close>

definition accepted :: "normalizer \<Rightarrow> sql_value \<Rightarrow> bool" where
  "accepted convert v \<longleftrightarrow>
     (case GetPlasoTimestamp convert (CocoaTime v) of
        Inl e \<Rightarrow> False
      | Inr None \<Rightarrow> False
      | Inr (Some t) \<Rightarrow> INT64_MIN \<le> t \<and> t \<le> INT64_MAX)"

text \<open>The event built from an accepted value.\<close>

definition event_of :: "normalizer \<Rightarrow> sql_value \<Rightarrow> time_description \<Rightarrow> event" where
  "event_of convert v description =
     \<lparr>timestamp = (case convert v of Inr t \<Rightarrow> t | Inl e \<Rightarrow> None),
      timestamp_desc = description\<rparr>"

text \<open>The events a call has added to the mediator.\<close>

definition new_events ::
  "parser_mediator \<Rightarrow> parser_mediator \<Rightarrow> (event \<times> MacNotesZhtmlstringEventData) list" where
  "new_events before after = drop (length (produced before)) (produced after)"

subsection \<open>Example inputs\<close>

text \<open>The parse trees that \<^verbatim>\<open>html.parser\<close> builds for the markups used as examples
  below. A markup that is not in the table is not an example; it is given the empty
  document.\<close>

definition newline_attribute_markup :: string where
  "newline_attribute_markup =
     ''<body><div title='' @ [CHR 0x22] @ ''a'' @ [newline] @ ''b'' @ [CHR 0x22]
       @ ''>x</div></body>''"

definition newline_attribute_br_markup :: string where
  "newline_attribute_br_markup =
     ''<body><br title='' @ [CHR 0x22] @ ''a'' @ [newline] @ ''b'' @ [CHR 0x22]
       @ ''/></body>''"

definition example_markups :: "(string \<times> element list) list" where
  "example_markups =
     [(''<body><p>Milk</p></body>'',
         [Tag ''body'' [] [Tag ''p'' [] [NavigableString ''Milk'']]]),
      ([], []),
      (''Milk'', [NavigableString ''Milk'']),
      (''<body><br/></body>'', [Tag ''body'' [] [Tag ''br'' [] []]]),
      (''<body><pre>x</pre></body>'', [Tag ''body'' [] [Tag ''pre'' [] [NavigableString ''x'']]]),
      (''<body><a title=t href=x>l</a><br/></body>'',
         [Tag ''body'' []
            [Tag ''a'' [(''title'', ''t''), (''href'', ''x'')] [NavigableString ''l''],
             Tag ''br'' [] []]]),
      (newline_attribute_markup,
         [Tag ''body'' [] [Tag ''div'' [(''title'', ''a'' @ [newline] @ ''b'')]
                            [NavigableString ''x'']]]),
      (newline_attribute_br_markup,
         [Tag ''body'' [] [Tag ''br'' [(''title'', ''a'' @ [newline] @ ''b'')] []]])]"

definition example_parser :: html_parser where
  "example_parser markup =
     (case map_of example_markups markup of Some soup \<Rightarrow> soup | None \<Rightarrow> [])"

text \<open>The row of the spec's end-to-end example: no last-modified time.\<close>

definition example_row :: row where
  "example_row =
     (\<lambda>c. SqlNull)
       (''title'' := SqlText ''Shopping'',
        ''zhtmlstring'' := SqlText ''<body><p>Milk</p></body>'',
        ''timestamp'' := SqlReal 0)"

definition empty_mediator :: parser_mediator where
  "empty_mediator = \<lparr>produced = []\<rparr>"

text \<open>The microseconds since the Unix epoch that the date-time library computes for the
  timestamps used as examples: the Cocoa epoch, 2001-01-01, and one day later. Another
  value is not an example; it is given no conversion.\<close>

definition example_timestamps :: "(sql_value \<times> int) list" where
  "example_timestamps =
     [(SqlReal 0, 978307200000000),
      (SqlReal 86400, 978393600000000)]"

definition example_normalizer :: normalizer where
  "example_normalizer v =
     (case map_of example_timestamps v of
        Some t \<Rightarrow> Inr (Some t)
      | None \<Rightarrow> Inl ConversionError)"

section \<open>Properties\<close>

subsection \<open>Matching one line\<close>

lemma match_literal_Some: "match_literal p s = Some r \<longleftrightarrow> s = p @ r"
  by (induction p s rule: match_literal.induct) auto

lemma match_dotstar_gt_last:
  "newline \<notin> set r \<Longrightarrow> match_dotstar_gt t = None \<Longrightarrow>
   match_dotstar_gt (r @ CHR ''>'' # t) = Some t"
  by (induction r) (auto simp: newline_def)

lemma append_eq_no_gt:
  assumes "m @ r = body @ CHR ''>'' # t" and "CHR ''>'' \<notin> set m"
  shows "\<exists>b. body = m @ b \<and> r = b @ CHR ''>'' # t"
  using assms
  by (auto simp: append_eq_append_conv2 append_eq_Cons_conv Cons_eq_append_conv)

lemma match_alternatives_line:
  assumes "\<forall>m\<in>set ns. CHR ''>'' \<notin> set m"
    and "newline \<notin> set body" and "match_dotstar_gt t = None"
    and "\<exists>n\<in>set ns. prefix n body"
  shows "match_alternatives ns (body @ CHR ''>'' # t) = Some (match_opt_newline t)"
  using assms(1,4)
proof (induction ns)
  case Nil
  then show ?case by simp
next
  case (Cons m ns)
  show ?case
  proof (cases "match_literal m (body @ CHR ''>'' # t)")
    case None
    then have "\<not> prefix m body"
      by (metis match_literal_Some append.assoc prefixE option.distinct(1))
    with Cons.prems have "\<exists>n\<in>set ns. prefix n body" by auto
    with Cons None show ?thesis by simp
  next
    case (Some r)
    then have "m @ r = body @ CHR ''>'' # t" by (simp add: match_literal_Some)
    moreover have "CHR ''>'' \<notin> set m" using Cons.prems by simp
    ultimately obtain b where b: "body = m @ b" "r = b @ CHR ''>'' # t"
      using append_eq_no_gt by blast
    with assms(2) have "newline \<notin> set b" by simp
    then have "match_dotstar_gt r = Some t"
      using assms(3) b by (simp add: match_dotstar_gt_last)
    with Some show ?thesis by simp
  qed
qed

lemma tag_names_no_gt: "\<forall>m\<in>set tag_names. CHR ''>'' \<notin> set m"
  by (simp add: tag_names_def)

lemma tag_names_hd:
  "n \<in> set tag_names \<Longrightarrow> prefix n body \<Longrightarrow> \<exists>d ds. body = d # ds \<and> d \<noteq> CHR ''/''"
  by (auto simp: tag_names_def prefix_def)

lemma match_tag_line:
  assumes "slash = [] \<or> slash = ''/''"
    and "\<exists>n\<in>set tag_names. prefix n body"
    and "newline \<notin> set body" and "match_dotstar_gt t = None"
  shows "match_tag (CHR ''<'' # slash @ body @ CHR ''>'' # t) = Some (match_opt_newline t)"
proof -
  have alt: "match_alternatives tag_names (body @ CHR ''>'' # t) = Some (match_opt_newline t)"
    using tag_names_no_gt assms(3,4,2) by (rule match_alternatives_line)
  from assms(2) obtain d ds where d: "body = d # ds" "d \<noteq> CHR ''/''"
    using tag_names_hd by blast
  from assms(1) show ?thesis
  proof
    assume "slash = []"
    with alt d show ?thesis by simp
  next
    assume "slash = ''/''"
    with alt show ?thesis by simp
  qed
qed

lemma re_sub_no_lt: "CHR ''<'' \<notin> set pre \<Longrightarrow> re_sub (pre @ s) = pre @ re_sub s"
  by (induction pre) auto

lemma re_sub_tag_line:
  assumes "CHR ''<'' \<notin> set indent" and "slash = [] \<or> slash = ''/''"
    and "\<exists>n\<in>set tag_names. prefix n body"
    and "newline \<notin> set body" and "match_dotstar_gt t = None"
  shows "re_sub (indent @ CHR ''<'' # slash @ body @ CHR ''>'' # t)
         = indent @ re_sub (match_opt_newline t)"
  using assms(1) match_tag_line [OF assms(2-5)]
  by (simp add: re_sub_no_lt del: match_tag.simps)

subsection \<open>The substitution works line by line\<close>








lemma tag_names_no_newline: "\<forall>n\<in>set tag_names. newline \<notin> set n"
  by (simp add: tag_names_def newline_def)





lemma match_alternatives_none:
  "\<forall>n\<in>set ns. \<not> prefix n s \<Longrightarrow> match_alternatives ns s = None"
proof (induction ns)
  case Nil
  then show ?case by simp
next
  case (Cons n ns)
  then have "match_literal n s = None"
    by (cases "match_literal n s") (auto simp: match_literal_Some)
  with Cons show ?case by simp
qed

lemma prefix_line:
  assumes "newline \<notin> set n" and "prefix n (l @ newline # rest)"
  shows "prefix n l"
proof -
  from assms(2) consider "prefix n l" | us where "n = l @ us" "prefix us (newline # rest)"
    by (auto simp: prefix_append)
  then show ?thesis
  proof cases
    case 1
    then show ?thesis .
  next
    case 2
    with assms(1) have "us = []" by (cases us) auto
    with 2 show ?thesis by simp
  qed
qed

lemma match_tag_none:
  assumes "\<forall>n\<in>set tag_names. \<not> prefix n t \<and> \<not> prefix (CHR ''/'' # n) t"
  shows "match_tag (CHR ''<'' # t) = None"
proof (cases t)
  case Nil
  then show ?thesis by simp
next
  case (Cons d ds)
  have 1: "match_alternatives tag_names t = None"
    using assms by (simp add: match_alternatives_none)
  have 2: "d = CHR ''/'' \<Longrightarrow> match_alternatives tag_names ds = None"
    using assms Cons by (simp add: match_alternatives_none)
  show ?thesis using 1 2 Cons by (cases "d = CHR ''/''") auto
qed

lemma re_sub_unmatched_line:
  assumes "CHR ''<'' \<notin> set indent" and "CHR ''<'' \<notin> set tag" and "newline \<notin> set tag"
    and "\<forall>n\<in>set tag_names. \<not> prefix n tag \<and> \<not> prefix (CHR ''/'' # n) tag"
  shows "re_sub (indent @ CHR ''<'' # tag @ [newline]) = indent @ CHR ''<'' # tag @ [newline]"
proof -
  have "\<forall>n\<in>set tag_names. \<not> prefix n (tag @ [newline])
          \<and> \<not> prefix (CHR ''/'' # n) (tag @ [newline])"
  proof (intro ballI conjI)
    fix n assume n: "n \<in> set tag_names"
    then have nl: "newline \<notin> set n" "newline \<notin> set (CHR ''/'' # n)"
      using tag_names_no_newline by (auto simp: newline_def)
    show "\<not> prefix n (tag @ [newline])"
      using prefix_line [OF nl(1), of tag "[]"] assms(4) n by blast
    show "\<not> prefix (CHR ''/'' # n) (tag @ [newline])"
      using prefix_line [OF nl(2), of tag "[]"] assms(4) n by blast
  qed
  then have m: "match_tag (CHR ''<'' # tag @ [newline]) = None"
    by (rule match_tag_none)
  have "CHR ''<'' \<notin> set (tag @ [newline])" using assms(2) by (simp add: newline_def)
  then have "re_sub (tag @ [newline]) = tag @ [newline]"
    using re_sub_no_lt [of "tag @ [newline]" "[]"] by simp
  with m have "re_sub (CHR ''<'' # tag @ [newline]) = CHR ''<'' # tag @ [newline]"
    by (simp del: match_tag.simps)
  then show ?thesis using assms(1) by (simp add: re_sub_no_lt del: re_sub.simps)
qed

subsection \<open>Markers of tags in the pretty-printed part of a body\<close>




























subsection \<open>Bodies made of listed tags are reduced to their text\<close>

lemma substitute_xml_no_newline: "newline \<notin> set s \<Longrightarrow> newline \<notin> set (substitute_xml s)"
  by (induction s) (auto simp: newline_def)

lemma replace_quot_no_newline: "newline \<notin> set s \<Longrightarrow> newline \<notin> set (replace_quot s)"
  by (induction s) (auto simp: newline_def)

lemma quoted_attribute_value_no_newline:
  "newline \<notin> set s \<Longrightarrow> newline \<notin> set (quoted_attribute_value s)"
  by (auto simp: quoted_attribute_value_def replace_quot_no_newline) (simp_all add: newline_def)

lemma attribute_string_no_newline:
  "\<forall>(key, val) \<in> set a. newline \<notin> set key \<and> newline \<notin> set val \<Longrightarrow>
   newline \<notin> set (attribute_string a)"
proof (induction a)
  case Nil
  then show ?case by simp
next
  case (Cons kv a)
  obtain key val where kv: "kv = (key, val)" by (cases kv)
  with Cons have "newline \<notin> set key" "newline \<notin> set (quoted_attribute_value (substitute_xml val))"
    "newline \<notin> set (attribute_string a)"
    by (auto simp: quoted_attribute_value_no_newline substitute_xml_no_newline)
  with kv show ?case by (simp add: newline_def)
qed

lemma substitute_xml_no_brackets:
  "CHR ''<'' \<notin> set (substitute_xml s) \<and> CHR ''>'' \<notin> set (substitute_xml s)"
  by (induction s) auto

lemma strip_subset: "set (strip s) \<subseteq> set s"
  unfolding strip_def by (metis set_rev set_dropWhileD subsetI)

lemma decode_listed:
  assumes "n \<in> set tag_names"
  shows "decode (Some k) nxt n a cs =
     replicate (k - 1) CHR '' '' @ CHR ''<'' # [] @ (n @ attribute_string (formatter_attributes a)) @ CHR ''>'' # newline #
       (decode_contents (Some (Suc k)) n cs @ end_line (decode_contents (Some (Suc k)) n cs))
       @ replicate (k - 1) CHR '' '' @ CHR ''<'' # ''/'' @ (n @ []) @ CHR ''>'' #
         (if nxt then [newline] else [])"
proof -
  have e: "\<not> is_empty_element n cs"
    using assms by (auto simp: is_empty_element_def tag_names_def empty_element_tags_def)
  have p: "should_pretty_print n (Some k)"
    using assms by (auto simp: should_pretty_print_def tag_names_def preserve_whitespace_tags_def)
  show ?thesis
    using e p by (simp add: Let_def indent_space_def end_line_def)
qed

lemma decode_text_listed:
  assumes "n \<in> set tag_names" and "0 < k"
  shows "decode_text (Some k) n (output_ready n s) = text_only k (NavigableString s)"
proof -
  have "n \<noteq> ''pre''" "n \<notin> set cdata_containing_tags"
    using assms(1) by (auto simp: tag_names_def cdata_containing_tags_def)
  then show ?thesis
    using assms(2) by (auto simp: decode_text_def output_ready_def indent_space_def strip_def)
qed

lemma text_only_string_shape:
  "text_only k (NavigableString s) = [] \<or>
   (last (text_only k (NavigableString s)) = newline)"
  by simp

lemma text_only_string_no_lt: "CHR ''<'' \<notin> set (text_only k (NavigableString s))"
  using strip_subset [of "substitute_xml s"] substitute_xml_no_brackets [of s]
  by (auto simp: newline_def)

lemma end_line_append: "x = [] \<or> last x = newline \<Longrightarrow> end_line (x @ y) = end_line y"
  by (cases "y = []") (auto simp: end_line_def)

lemma listed_truthy: "listed c \<Longrightarrow> truthy_element c"
  by (cases c) auto

lemma re_sub_decode_listed:
  "\<forall>k. indent_level = Some k \<longrightarrow> 0 < k \<longrightarrow> listed (Tag name attrs contents) \<longrightarrow>
     (\<forall>t. re_sub (decode indent_level nxt name attrs contents @ (if nxt then t else newline # t))
            = text_only k (Tag name attrs contents) @ re_sub t)
     \<and> re_sub (decode indent_level nxt name attrs contents) = text_only k (Tag name attrs contents)"
  and
  "\<forall>k. indent_level = Some k \<longrightarrow> 0 < k \<longrightarrow> pname \<in> set tag_names \<longrightarrow> (\<forall>c\<in>set cs. listed c) \<longrightarrow>
     (\<forall>t. re_sub (decode_contents indent_level pname cs
                   @ end_line (decode_contents indent_level pname cs) @ t)
            = concat (map (text_only k) cs) @ re_sub t)"
proof (induction indent_level nxt name attrs contents and indent_level pname cs
    rule: decode_decode_contents.induct)
  case (1 indent_level nxt name attrs contents)
  show ?case
  proof (intro allI impI)
    fix k
    assume il: "indent_level = Some k" and k: "0 < k" and l: "listed (Tag name attrs contents)"
    from l have n: "name \<in> set tag_names" and ls: "\<forall>c\<in>set contents. listed c"
      and at: "newline \<notin> set (attribute_string (formatter_attributes attrs))"
      by (auto simp: attribute_string_no_newline formatter_attributes_def)
    define C where "C = decode_contents (Some (Suc k)) name contents"
    define ind where "ind = replicate (k - 1) CHR '' ''"
    define EC where "EC = concat (map (text_only (Suc k)) contents)"
    have pp: "should_pretty_print name indent_level"
      using n il by (auto simp: should_pretty_print_def tag_names_def preserve_whitespace_tags_def)
    have ih: "\<And>t. re_sub (C @ end_line C @ t) = EC @ re_sub t"
      using "1.IH"(1) [OF refl refl refl pp] il n ls by (simp add: C_def EC_def)
    have D: "decode indent_level nxt name attrs contents
               = ind @ CHR ''<'' # [] @ (name @ attribute_string (formatter_attributes attrs)) @ CHR ''>'' # newline #
                   (C @ end_line C @ ind @ CHR ''<'' # ''/'' @ (name @ []) @ CHR ''>'' #
                      (if nxt then [newline] else []))"
      using decode_listed [OF n, of k nxt attrs contents] il
      by (simp add: C_def ind_def del: decode.simps)
    have i: "CHR ''<'' \<notin> set ind" by (simp add: ind_def)
    have nn: "newline \<notin> set name" using n tag_names_no_newline by blast
    have b1: "\<exists>m\<in>set tag_names. prefix m (name @ attribute_string (formatter_attributes attrs))"
      using n by (auto intro: prefixI)
    have b2: "\<exists>m\<in>set tag_names. prefix m (name @ [])" using n by auto
    have n1: "newline \<notin> set (name @ attribute_string (formatter_attributes attrs))" using nn at by simp
    have n2: "newline \<notin> set (name @ [])" using nn by simp
    have s1: "([]::string) = [] \<or> [] = ''/''" by simp
    have s2: "''/'' = [] \<or> ''/'' = ''/''" by simp
    have open_line: "re_sub (ind @ CHR ''<'' # [] @ (name @ attribute_string (formatter_attributes attrs)) @ CHR ''>'' # newline # r)
                     = ind @ re_sub r" for r
      using re_sub_tag_line [OF i s1 b1 n1, of "newline # r"] by simp
    have close_line: "re_sub (ind @ CHR ''<'' # ''/'' @ (name @ []) @ CHR ''>'' # X)
                     = ind @ re_sub (match_opt_newline X)" if "match_dotstar_gt X = None" for X
      using re_sub_tag_line [OF i s2 b2 n2 that] .
    have E: "text_only k (Tag name attrs contents) = ind @ EC @ ind"
      by (simp add: ind_def EC_def)
    have main: "re_sub (decode indent_level nxt name attrs contents @ X) = ind @ EC @ ind @ re_sub (match_opt_newline ((if nxt then [newline] else []) @ X))"
      if "match_dotstar_gt ((if nxt then [newline] else []) @ X) = None" for X
    proof -
      have "decode indent_level nxt name attrs contents @ X
              = ind @ CHR ''<'' # [] @ (name @ attribute_string (formatter_attributes attrs)) @ CHR ''>'' # newline #
                   (C @ end_line C @ (ind @ CHR ''<'' # ''/'' @ (name @ []) @ CHR ''>'' #
                      ((if nxt then [newline] else []) @ X)))"
        unfolding D by simp
      then have "re_sub (decode indent_level nxt name attrs contents @ X)
              = ind @ re_sub (C @ end_line C @ (ind @ CHR ''<'' # ''/'' @ (name @ []) @ CHR ''>'' #
                      ((if nxt then [newline] else []) @ X)))"
        using open_line by simp
      also have "\<dots> = ind @ EC @ re_sub (ind @ CHR ''<'' # ''/'' @ (name @ []) @ CHR ''>'' #
                      ((if nxt then [newline] else []) @ X))"
        using ih by simp
      also have "\<dots> = ind @ EC @ ind @ re_sub (match_opt_newline ((if nxt then [newline] else []) @ X))"
        using close_line [OF that] by simp
      finally show ?thesis .
    qed
    show "(\<forall>t. re_sub (decode indent_level nxt name attrs contents @ (if nxt then t else newline # t))
            = text_only k (Tag name attrs contents) @ re_sub t)
     \<and> re_sub (decode indent_level nxt name attrs contents) = text_only k (Tag name attrs contents)"
    proof (intro conjI allI)
      fix t
      show "re_sub (decode indent_level nxt name attrs contents @ (if nxt then t else newline # t))
            = text_only k (Tag name attrs contents) @ re_sub t"
        using main [of "if nxt then t else newline # t"] E by simp
    next
      show "re_sub (decode indent_level nxt name attrs contents) = text_only k (Tag name attrs contents)"
        using main [of "[]"] E by simp
    qed
  qed
next
  case (2 indent_level name)
  show ?case by (simp add: end_line_def)
next
  case (3 indent_level name n a contents cs)
  show ?case
  proof (intro allI impI)
    fix k t
    assume il: "indent_level = Some k" and k: "0 < k" and pn: "name \<in> set tag_names"
      and ls: "\<forall>c\<in>set (Tag n a contents # cs). listed c"
    define D where "D = decode indent_level (next_sibling cs) n a contents"
    define C where "C = decode_contents indent_level name cs"
    from ls have l: "listed (Tag n a contents)" and lcs: "\<forall>c\<in>set cs. listed c" by simp_all
    from l have n: "n \<in> set tag_names" by simp
    have ih1: "\<And>t. re_sub (D @ (if next_sibling cs then t else newline # t))
                  = text_only k (Tag n a contents) @ re_sub t"
      using "3.IH"(1) il k l unfolding D_def by blast
    have ih2: "\<And>t. re_sub (C @ end_line C @ t) = concat (map (text_only k) cs) @ re_sub t"
      using "3.IH"(2) il k pn lcs unfolding C_def by blast
    have dc: "decode_contents indent_level name (Tag n a contents # cs) = D @ C"
      by (simp add: D_def C_def del: decode.simps)
    show "re_sub (decode_contents indent_level name (Tag n a contents # cs)
                   @ end_line (decode_contents indent_level name (Tag n a contents # cs)) @ t)
            = concat (map (text_only k) (Tag n a contents # cs)) @ re_sub t"
    proof (cases cs)
      case Nil
      then have c: "C = []" "\<not> next_sibling cs" by (simp_all add: C_def)
      have "D \<noteq> [] \<and> last D = CHR ''>''"
        unfolding D_def using decode_listed [OF n, of k False a contents] il Nil
        by (simp del: decode.simps)
      then have "end_line D = [newline]" by (simp add: end_line_def newline_def)
      then show ?thesis using dc c ih1 [of t] Nil by (simp del: decode.simps)
    next
      case (Cons c' cs')
      with lcs have nx: "next_sibling cs" by (simp add: listed_truthy)
      have "D \<noteq> [] \<and> last D = newline"
        unfolding D_def using decode_listed [OF n, of k True a contents] il nx
        by (simp del: decode.simps)
      then have e: "end_line (D @ C) = end_line C" by (simp add: end_line_append)
      have "re_sub (D @ (C @ end_line C @ t)) = text_only k (Tag n a contents) @ re_sub (C @ end_line C @ t)"
        using ih1 [of "C @ end_line C @ t"] nx by simp
      then show ?thesis using dc e ih2 [of t] by (simp del: decode.simps text_only.simps)
    qed
  qed
next
  case (4 indent_level name s cs)
  show ?case
  proof (intro allI impI)
    fix k t
    assume il: "indent_level = Some k" and k: "0 < k" and pn: "name \<in> set tag_names"
      and ls: "\<forall>c\<in>set (NavigableString s # cs). listed c"
    define T where "T = text_only k (NavigableString s)"
    define C where "C = decode_contents indent_level name cs"
    have ih: "\<And>t. re_sub (C @ end_line C @ t) = concat (map (text_only k) cs) @ re_sub t"
      using "4.IH" il k pn ls unfolding C_def by simp
    have dc: "decode_contents indent_level name (NavigableString s # cs) = T @ C"
      using decode_text_listed [OF pn k, of s] il by (simp add: T_def C_def)
    have sh: "T = [] \<or> last T = newline" unfolding T_def by (rule text_only_string_shape)
    have lt: "CHR ''<'' \<notin> set T" unfolding T_def by (rule text_only_string_no_lt)
    have e: "end_line (T @ C) = end_line C" using sh by (rule end_line_append)
    have "re_sub (T @ (C @ end_line C @ t)) = T @ re_sub (C @ end_line C @ t)"
      using lt by (rule re_sub_no_lt)
    then show "re_sub (decode_contents indent_level name (NavigableString s # cs)
                   @ end_line (decode_contents indent_level name (NavigableString s # cs)) @ t)
            = concat (map (text_only k) (NavigableString s # cs)) @ re_sub t"
      using dc e ih [of t] by (simp add: T_def del: text_only.simps)
  qed
next
  case (5 indent_level name p s q cs)
  show ?case by simp
qed

lemma find_tag_is_Tag: "find_tag name soup = Some (b, nxt) \<Longrightarrow> \<exists>n a cs. b = Tag n a cs"
  by (induction name soup rule: find_tag.induct) (auto split: if_splits option.splits)

lemma text_only_no_brackets:
  "listed e \<Longrightarrow> CHR ''<'' \<notin> set (text_only k e) \<and> CHR ''>'' \<notin> set (text_only k e)"
proof (induction k e rule: text_only.induct)
  case (1 k n a cs)
  then show ?case by auto
next
  case (2 k s)
  show ?case
    using strip_subset [of "substitute_xml s"] substitute_xml_no_brackets [of s]
    by (auto simp: newline_def)
next
  case (3 k p s q)
  then show ?case by simp
qed

lemma sublist_text_only:
  "s \<in> set (all_strings e) \<Longrightarrow> strip (substitute_xml s) \<noteq> [] \<Longrightarrow>
   sublist (strip (substitute_xml s)) (text_only k e)"
proof (induction k e rule: text_only.induct)
  case (1 k n a cs)
  from "1.prems"(1) obtain c where c: "c \<in> set cs" "s \<in> set (all_strings c)" by auto
  then have "sublist (strip (substitute_xml s)) (text_only (Suc k) c)"
    using "1.IH" "1.prems"(2) by blast
  then obtain ps ss where 1: "text_only (Suc k) c = ps @ strip (substitute_xml s) @ ss"
    by (auto simp: sublist_def)
  from c(1) obtain xs ys where "cs = xs @ c # ys" by (meson split_list)
  then have "text_only k (Tag n a cs)
    = (replicate (k - 1) CHR '' '' @ concat (map (text_only (Suc k)) xs) @ ps)
      @ strip (substitute_xml s)
      @ (ss @ concat (map (text_only (Suc k)) ys) @ replicate (k - 1) CHR '' '')"
    using 1 by simp
  then show ?case unfolding sublist_def by blast
next
  case (2 k s')
  then have "text_only k (NavigableString s')
    = replicate (k - 1) CHR '' '' @ strip (substitute_xml s) @ [newline]" by simp
  then show ?case unfolding sublist_def by blast
next
  case (3 k p s q)
  then show ?case by simp
qed

lemma substitute_xml_plain:
  "CHR ''&'' \<notin> set s \<Longrightarrow> CHR ''<'' \<notin> set s \<Longrightarrow> CHR ''>'' \<notin> set s \<Longrightarrow> substitute_xml s = s"
  by (induction s) auto

lemma dropWhile_hd: "s \<noteq> [] \<Longrightarrow> \<not> P (hd s) \<Longrightarrow> dropWhile P s = s"
  by (cases s) auto

lemma strip_plain: "plain_text s \<Longrightarrow> strip (substitute_xml s) = s"
  by (simp add: plain_text_def substitute_xml_plain strip_def dropWhile_hd hd_rev)

text \<open>
  C6, as stated, fails: the markup \<^verbatim>\<open><body><div title="a(line feed)b">x</div></body>\<close>
  holds listed tags only, but the opening \<^verbatim>\<open>div\<close> tag is serialised over two lines,
  neither of which matches the pattern, and the tag stays in the sanitized output.
\<close>

theorem newline_in_attribute_keeps_tag:
  "GetNoteText example_parser (SqlText newline_attribute_markup)
     = Inr ('' <div title='' @ [CHR 0x22] @ ''a'' @ [newline] @ ''b'' @ [CHR 0x22] @ ''>''
            @ [newline] @ ''  x'' @ [newline] @ '' '')"
  by (simp add: GetNoteText_def BeautifulSoup_def example_parser_def example_markups_def
      newline_attribute_markup_def soup_body_def
      is_empty_element_def should_pretty_print_def preserve_whitespace_tags_def
      empty_element_tags_def indent_space_def decode_text_def output_ready_def
      cdata_containing_tags_def strip_def isspace_def quoted_attribute_value_def
      formatter_attributes_def
      tag_names_def newline_def)

text \<open>
  C6, amended. When the body found in the markup is listed (every tag in it bears a
  listed name and has no line feed in its attributes), the sanitized output is the
  text-only rendering of the body: it holds no angle bracket at all, and every string
  of the body occurs in it, stripped of surrounding white space and with ampersands
  and angle brackets written as entities; a string without such characters and without
  white space at its ends occurs in it verbatim.
\<close>

theorem listed_tags_are_stripped:
  assumes "soup_body (parser markup) = Some (body, nxt)" and "listed body"
  shows "GetNoteText parser (SqlText markup) = Inr (text_only 1 body)
       \<and> CHR ''<'' \<notin> set (text_only 1 body) \<and> CHR ''>'' \<notin> set (text_only 1 body)
       \<and> (\<forall>s \<in> set (all_strings body).
            (strip (substitute_xml s) \<noteq> [] \<longrightarrow>
               sublist (strip (substitute_xml s)) (text_only 1 body))
            \<and> (plain_text s \<longrightarrow> sublist s (text_only 1 body)))"
proof -
  from assms(1) obtain n a cs where b: "body = Tag n a cs"
    unfolding soup_body_def using find_tag_is_Tag by blast
  have "re_sub (decode (Some 1) nxt n a cs) = text_only 1 (Tag n a cs)"
    using re_sub_decode_listed(1) [of "Some 1" n a cs nxt] assms(2) b by simp
  then have 1: "GetNoteText parser (SqlText markup) = Inr (text_only 1 body)"
    using assms(1) b by (simp add: GetNoteText_def BeautifulSoup_def del: decode.simps text_only.simps)
  have 2: "CHR ''<'' \<notin> set (text_only 1 body) \<and> CHR ''>'' \<notin> set (text_only 1 body)"
    using assms(2) by (rule text_only_no_brackets)
  have 3: "sublist (strip (substitute_xml s)) (text_only 1 body)"
    if "s \<in> set (all_strings body)" "strip (substitute_xml s) \<noteq> []" for s
    using that by (rule sublist_text_only)
  have 4: "sublist s (text_only 1 body)" if "s \<in> set (all_strings body)" "plain_text s" for s
    using 3 [OF that(1)] strip_plain [OF that(2)] that(2) by (simp add: plain_text_def)
  show ?thesis using 1 2 3 4 by blast
qed

theorem listed_tags_are_stripped_witness:
  "soup_body (example_parser ''<body><p>Milk</p></body>'')
     = Some (Tag ''body'' [] [Tag ''p'' [] [NavigableString ''Milk'']], False)
   \<and> GetNoteText example_parser (SqlText ''<body><p>Milk</p></body>'')
       = Inr (''   Milk'' @ [newline] @ '' '')
   \<and> sublist ''Milk'' (''   Milk'' @ [newline] @ '' '')"
proof -
  have b: "soup_body (example_parser ''<body><p>Milk</p></body>'')
     = Some (Tag ''body'' [] [Tag ''p'' [] [NavigableString ''Milk'']], False)"
    by (simp add: example_parser_def example_markups_def soup_body_def)
  have l: "listed (Tag ''body'' [] [Tag ''p'' [] [NavigableString ''Milk'']])"
    by (simp add: tag_names_def)
  have s: "''Milk'' \<in> set (all_strings (Tag ''body'' [] [Tag ''p'' [] [NavigableString ''Milk'']]))"
    by simp
  have p: "plain_text ''Milk''" by (simp add: plain_text_def isspace_def)
  have t: "text_only 1 (Tag ''body'' [] [Tag ''p'' [] [NavigableString ''Milk'']])
             = ''   Milk'' @ [newline] @ '' ''"
    by (simp add: strip_def isspace_def)
  show ?thesis
    using b s p t
      listed_tags_are_stripped
        [where parser = example_parser and markup = "''<body><p>Milk</p></body>''", OF b l]
    by (auto simp del: text_only.simps)
qed

subsection \<open>Tags whose name does not begin with a listed name\<close>




subsection \<open>Tags whose name begins with a listed name\<close>




subsection \<open>The sanitizer on inputs without a body\<close>

lemma example_note_text:
  "GetNoteText example_parser (SqlText ''<body><p>Milk</p></body>'') = Inr (''   Milk'' @ [newline] @ '' '')"
  by (simp add: GetNoteText_def BeautifulSoup_def example_parser_def example_markups_def soup_body_def
      is_empty_element_def should_pretty_print_def preserve_whitespace_tags_def
      empty_element_tags_def indent_space_def decode_text_def output_ready_def
      cdata_containing_tags_def strip_def isspace_def tag_names_def newline_def
      formatter_attributes_def)

text \<open>
  C1. The claim: empty or null input gives the empty string, input without a body
  element is treated as the body, and nothing is ever raised. The code at the failing
  inputs: for the empty string and for the plain text \<^verbatim>\<open>Milk\<close> the parser builds
  a document without a body tag, \<^verbatim>\<open>soup.body\<close> is \<^verbatim>\<open>None\<close> and
  \<^verbatim>\<open>_GetNoteText\<close> raises \<^verbatim>\<open>AttributeError\<close>; for a null value the constructor of the
  soup raises \<^verbatim>\<open>TypeError\<close>.
\<close>

theorem GetNoteText_raises:
  "GetNoteText example_parser (SqlText []) = Inl AttributeError
   \<and> GetNoteText example_parser (SqlText ''Milk'') = Inl AttributeError
   \<and> GetNoteText example_parser SqlNull = Inl TypeError"
  by (simp add: GetNoteText_def BeautifulSoup_def example_parser_def example_markups_def soup_body_def)

subsection \<open>Events of one row\<close>

lemma ParseZHTMLSTRINGRow_error:
  "GetNoteText parser (GetRowValue row ''zhtmlstring'') = Inl e \<Longrightarrow>
   ParseZHTMLSTRINGRow parser convert mediator row = (Some e, mediator)"
  by (simp add: ParseZHTMLSTRINGRow_def)

lemma accepted_produces:
  assumes "accepted convert v"
  shows "DateTimeValuesEvent convert (CocoaTime v) description = Inr (event_of convert v description)
       \<and> ProduceEventWithEventData mediator (event_of convert v description) event_data
           = Inr (mediator\<lparr>produced := produced mediator @ [(event_of convert v description, event_data)]\<rparr>)"
  using assms
  by (auto simp: accepted_def DateTimeValuesEvent_def GetPlasoTimestamp_def event_of_def
      ProduceEventWithEventData_def split: sql_value.splits sum.splits option.splits)

lemma not_accepted_fails:
  assumes "\<not> accepted convert v"
  shows "(\<exists>e. DateTimeValuesEvent convert (CocoaTime v) description = Inl e)
       \<or> (\<exists>ev e. DateTimeValuesEvent convert (CocoaTime v) description = Inr ev
              \<and> ProduceEventWithEventData mediator ev event_data = Inl e)"
  using assms
  by (auto simp: accepted_def DateTimeValuesEvent_def GetPlasoTimestamp_def
      ProduceEventWithEventData_def split: sql_value.splits sum.splits option.splits)

lemma ParseZHTMLSTRINGRow_events:
  assumes "GetNoteText parser (GetRowValue row ''zhtmlstring'') = Inr sanitized"
  shows "new_events mediator (snd (ParseZHTMLSTRINGRow parser convert mediator row)) =
      (if accepted convert (GetRowValue row ''timestamp'') then
         (event_of convert (GetRowValue row ''timestamp'') TIME_DESCRIPTION_CREATION,
          \<lparr>title = GetRowValue row ''title'', note_text = sanitized,
           zhtmlstring = GetRowValue row ''zhtmlstring''\<rparr>)
         # (if truth (GetRowValue row ''last_modified_time'')
               \<and> accepted convert (GetRowValue row ''last_modified_time'') then
              [(event_of convert (GetRowValue row ''last_modified_time'') TIME_DESCRIPTION_LAST_USED,
                \<lparr>title = GetRowValue row ''title'', note_text = sanitized,
                 zhtmlstring = GetRowValue row ''zhtmlstring''\<rparr>)]
            else [])
       else [])"
    and "fst (ParseZHTMLSTRINGRow parser convert mediator row) = None \<longleftrightarrow>
           accepted convert (GetRowValue row ''timestamp'')
           \<and> (truth (GetRowValue row ''last_modified_time'') \<longrightarrow>
                accepted convert (GetRowValue row ''last_modified_time''))"
proof -
  let ?ct = "GetRowValue row ''timestamp''" and ?mt = "GetRowValue row ''last_modified_time''"
  let ?d = "\<lparr>title = GetRowValue row ''title'', note_text = sanitized,
           zhtmlstring = GetRowValue row ''zhtmlstring''\<rparr>"
  let ?m1 = "mediator\<lparr>produced := produced mediator
               @ [(event_of convert ?ct TIME_DESCRIPTION_CREATION, ?d)]\<rparr>"
  let ?P = "ParseZHTMLSTRINGRow parser convert mediator row"
  have both: "new_events mediator (snd ?P) =
      (if accepted convert ?ct then
         (event_of convert ?ct TIME_DESCRIPTION_CREATION, ?d)
         # (if truth ?mt \<and> accepted convert ?mt then
              [(event_of convert ?mt TIME_DESCRIPTION_LAST_USED, ?d)]
            else [])
       else [])
     \<and> (fst ?P = None \<longleftrightarrow> accepted convert ?ct \<and> (truth ?mt \<longrightarrow> accepted convert ?mt))"
  proof (cases "accepted convert ?ct")
    case False
    from not_accepted_fails [OF False, of TIME_DESCRIPTION_CREATION mediator ?d]
    have "\<exists>e. ?P = (Some e, mediator)"
      using assms by (auto simp: ParseZHTMLSTRINGRow_def Let_def)
    then show ?thesis using False by (auto simp: new_events_def)
  next
    case True
    note c = accepted_produces [OF True, of TIME_DESCRIPTION_CREATION mediator ?d]
    show ?thesis
    proof (cases "truth ?mt")
      case False
      then have "?P = (None, ?m1)"
        using assms c by (simp add: ParseZHTMLSTRINGRow_def Let_def)
      then show ?thesis using True False by (simp add: new_events_def)
    next
      case t: True
      show ?thesis
      proof (cases "accepted convert ?mt")
        case False
        from not_accepted_fails [OF False, of TIME_DESCRIPTION_LAST_USED ?m1 ?d]
        have "\<exists>e. ?P = (Some e, ?m1)"
          using assms c t by (auto simp: ParseZHTMLSTRINGRow_def Let_def)
        then show ?thesis using True t False by (auto simp: new_events_def)
      next
        case a: True
        note m = accepted_produces [OF a, of TIME_DESCRIPTION_LAST_USED ?m1 ?d]
        have "?P = (None, ?m1\<lparr>produced := produced ?m1
                 @ [(event_of convert ?mt TIME_DESCRIPTION_LAST_USED, ?d)]\<rparr>)"
          using assms c t m by (simp add: ParseZHTMLSTRINGRow_def Let_def)
        then show ?thesis using True t a by (simp add: new_events_def)
      qed
    qed
  qed
  show "new_events mediator (snd ?P) =
      (if accepted convert ?ct then
         (event_of convert ?ct TIME_DESCRIPTION_CREATION, ?d)
         # (if truth ?mt \<and> accepted convert ?mt then
              [(event_of convert ?mt TIME_DESCRIPTION_LAST_USED, ?d)]
            else [])
       else [])"
    using both by blast
  show "fst ?P = None \<longleftrightarrow> accepted convert ?ct \<and> (truth ?mt \<longrightarrow> accepted convert ?mt)"
    using both by blast
qed

lemma truth_iff: "truth v \<longleftrightarrow> v \<noteq> SqlNull \<and> v \<noteq> SqlInteger 0 \<and> v \<noteq> SqlReal 0 \<and> v \<noteq> SqlText []"
  by (cases v) auto

lemma accepted_timestamp:
  "accepted convert v \<Longrightarrow> convert v = Inr (timestamp (event_of convert v description))"
  by (auto simp: accepted_def GetPlasoTimestamp_def event_of_def
      split: sql_value.splits sum.splits option.splits)

lemma example_accepted:
  "accepted example_normalizer (SqlReal 0)" "accepted example_normalizer (SqlReal 86400)"
  "\<not> accepted example_normalizer SqlNull" "\<not> accepted example_normalizer (SqlInteger 0)"
  by (simp_all add: accepted_def GetPlasoTimestamp_def example_normalizer_def example_timestamps_def
      INT64_MIN_def INT64_MAX_def)

lemma example_row_note_text:
  "GetNoteText example_parser (GetRowValue (example_row(c := v)) ''zhtmlstring'')
     = (if c = ''zhtmlstring'' then GetNoteText example_parser v
        else Inr (''   Milk'' @ [newline] @ '' ''))"
  using example_note_text by (simp add: GetRowValue_def example_row_def)

text \<open>
  C2. The claim: a row whose markup value or creation timestamp is absent is treated as a
  data-integrity error, the row is skipped, producing no events, and the remaining rows
  are processed. The code at the failing input, the example row with a null
  \<^verbatim>\<open>zhtmlstring\<close> column: the handler hands \<^verbatim>\<open>None\<close> to \<^verbatim>\<open>_GetNoteText\<close> unchecked
  and \<^verbatim>\<open>TypeError\<close> leaves the handler from inside the parser library: the missing
  guard in front of the sanitizer. The sibling column is checked: on a null
  \<^verbatim>\<open>timestamp\<close> the sink refuses the event with \<^verbatim>\<open>InvalidEvent\<close>. Neither row
  produces an event.
\<close>

theorem absent_markup_raises_TypeError:
  "ParseZHTMLSTRINGRow example_parser example_normalizer empty_mediator
     (example_row(''zhtmlstring'' := SqlNull)) = (Some TypeError, empty_mediator)
   \<and> ParseZHTMLSTRINGRow example_parser example_normalizer empty_mediator
       (example_row(''timestamp'' := SqlNull)) = (Some InvalidEvent, empty_mediator)"
proof -
  have "GetNoteText example_parser (GetRowValue (example_row(''zhtmlstring'' := SqlNull)) ''zhtmlstring'')
          = Inl TypeError"
    by (simp add: GetRowValue_def GetNoteText_def BeautifulSoup_def)
  then have 1: "ParseZHTMLSTRINGRow example_parser example_normalizer empty_mediator
     (example_row(''zhtmlstring'' := SqlNull)) = (Some TypeError, empty_mediator)"
    by (rule ParseZHTMLSTRINGRow_error)
  have n: "GetNoteText example_parser
             (GetRowValue (example_row(''timestamp'' := SqlNull)) ''zhtmlstring'')
           = Inr (''   Milk'' @ [newline] @ '' '')"
    by (simp add: example_row_note_text)
  have 2: "ParseZHTMLSTRINGRow example_parser example_normalizer empty_mediator
       (example_row(''timestamp'' := SqlNull)) = (Some InvalidEvent, empty_mediator)"
    using n by (simp add: ParseZHTMLSTRINGRow_def Let_def GetRowValue_def DateTimeValuesEvent_def
        GetPlasoTimestamp_def ProduceEventWithEventData_def)
  show ?thesis using 1 2 by simp
qed

text \<open>
  C3, as stated, fails: the guard \<^verbatim>\<open>if modified_timestamp:\<close> reads the truth value, and
  the value 0.0 is false. The example row with the last-modified time 0.0 produces the
  CREATION event only.
\<close>

theorem zero_last_modified_emits_nothing:
  "GetRowValue (example_row(''last_modified_time'' := SqlReal 0)) ''last_modified_time'' = SqlReal 0
   \<and> map (timestamp_desc \<circ> fst)
         (new_events empty_mediator
           (snd (ParseZHTMLSTRINGRow example_parser example_normalizer empty_mediator
                  (example_row(''last_modified_time'' := SqlReal 0)))))
       = [TIME_DESCRIPTION_CREATION]"
proof -
  have n: "GetNoteText example_parser
             (GetRowValue (example_row(''last_modified_time'' := SqlReal 0)) ''zhtmlstring'')
           = Inr (''   Milk'' @ [newline] @ '' '')"
    by (simp add: example_row_note_text)
  have c: "GetRowValue (example_row(''last_modified_time'' := SqlReal 0)) ''timestamp'' = SqlReal 0"
    "GetRowValue (example_row(''last_modified_time'' := SqlReal 0)) ''last_modified_time'' = SqlReal 0"
    by (simp_all add: GetRowValue_def example_row_def)
  show ?thesis
    by (simp add: ParseZHTMLSTRINGRow_events(1) [OF n] c example_accepted event_of_def)
qed

text \<open>
  C3, amended. For a row whose markup is sanitized and whose creation timestamp is
  accepted, a second event is produced if and only if the last-modified value is true in
  Python's sense (not null, not the number zero, not the empty string) and is accepted
  as well. The second event carries the microseconds that the normalizer gives for the
  last-modified value; a row whose last-modified time is 0.0 produces one event.
\<close>

theorem second_event_iff_truth:
  assumes "GetNoteText parser (GetRowValue row ''zhtmlstring'') = Inr sanitized"
    and "accepted convert (GetRowValue row ''timestamp'')"
  shows "(length (new_events mediator (snd (ParseZHTMLSTRINGRow parser convert mediator row))) = 2
          \<longleftrightarrow> GetRowValue row ''last_modified_time''
                \<notin> {SqlNull, SqlInteger 0, SqlReal 0, SqlText []}
              \<and> accepted convert (GetRowValue row ''last_modified_time''))
       \<and> (length (new_events mediator (snd (ParseZHTMLSTRINGRow parser convert mediator row))) = 2
          \<longrightarrow> convert (GetRowValue row ''last_modified_time'')
                = Inr (timestamp (fst (new_events mediator
                         (snd (ParseZHTMLSTRINGRow parser convert mediator row)) ! 1))))
       \<and> (GetRowValue row ''last_modified_time'' = SqlReal 0
          \<longrightarrow> length (new_events mediator (snd (ParseZHTMLSTRINGRow parser convert mediator row))) = 1)"
  using assms(2) accepted_timestamp [of convert "GetRowValue row ''last_modified_time''"]
  by (simp add: ParseZHTMLSTRINGRow_events(1) [OF assms(1)] truth_iff)

theorem second_event_iff_truth_witness:
  "length (new_events empty_mediator
        (snd (ParseZHTMLSTRINGRow example_parser example_normalizer empty_mediator
               (example_row(''last_modified_time'' := SqlReal 86400))))) = 2
   \<and> timestamp (fst (new_events empty_mediator
        (snd (ParseZHTMLSTRINGRow example_parser example_normalizer empty_mediator
               (example_row(''last_modified_time'' := SqlReal 86400)))) ! 1))
       = Some 978393600000000
   \<and> length (new_events empty_mediator
        (snd (ParseZHTMLSTRINGRow example_parser example_normalizer empty_mediator
               (example_row(''last_modified_time'' := SqlReal 0))))) = 1"
proof -
  have n: "GetNoteText example_parser
             (GetRowValue (example_row(''last_modified_time'' := SqlReal 86400)) ''zhtmlstring'')
           = Inr (''   Milk'' @ [newline] @ '' '')"
    by (simp add: example_row_note_text)
  have z: "GetNoteText example_parser
             (GetRowValue (example_row(''last_modified_time'' := SqlReal 0)) ''zhtmlstring'')
           = Inr (''   Milk'' @ [newline] @ '' '')"
    by (simp add: example_row_note_text)
  have a: "accepted example_normalizer
             (GetRowValue (example_row(''last_modified_time'' := SqlReal 86400)) ''timestamp'')"
    "accepted example_normalizer
             (GetRowValue (example_row(''last_modified_time'' := SqlReal 0)) ''timestamp'')"
    using example_accepted by (simp_all add: GetRowValue_def example_row_def)
  have v: "GetRowValue (example_row(''last_modified_time'' := SqlReal 86400)) ''last_modified_time''
             = SqlReal 86400"
    "GetRowValue (example_row(''last_modified_time'' := SqlReal 0)) ''last_modified_time'' = SqlReal 0"
    by (simp_all add: GetRowValue_def)
  have e: "example_normalizer (SqlReal 86400) = Inr (Some 978393600000000)"
    by (simp add: example_normalizer_def example_timestamps_def)
  show ?thesis
    using second_event_iff_truth [OF n a(1), of empty_mediator]
      second_event_iff_truth [OF z a(2), of empty_mediator] v e example_accepted
    by simp
qed

text \<open>
  C4. The claim: every event has a kind in \<open>{CREATION, LAST_MODIFIED}\<close>, and the event
  of the last-modified timestamp is LAST\_MODIFIED. The code at the failing input, the
  example row with the last-modified time 86400.0: the second event is built with
  \<^verbatim>\<open>definitions.TIME_DESCRIPTION_LAST_USED\<close>, which is neither of the two kinds.
\<close>

theorem modified_event_is_last_used:
  "map (timestamp_desc \<circ> fst)
     (new_events empty_mediator
       (snd (ParseZHTMLSTRINGRow example_parser example_normalizer empty_mediator
              (example_row(''last_modified_time'' := SqlReal 86400)))))
     = [TIME_DESCRIPTION_CREATION, TIME_DESCRIPTION_LAST_USED]
   \<and> TIME_DESCRIPTION_LAST_USED \<notin> event_kinds"
proof -
  have n: "GetNoteText example_parser
             (GetRowValue (example_row(''last_modified_time'' := SqlReal 86400)) ''zhtmlstring'')
           = Inr (''   Milk'' @ [newline] @ '' '')"
    by (simp add: example_row_note_text)
  have c: "GetRowValue (example_row(''last_modified_time'' := SqlReal 86400)) ''timestamp'' = SqlReal 0"
    "GetRowValue (example_row(''last_modified_time'' := SqlReal 86400)) ''last_modified_time''
       = SqlReal 86400"
    by (simp_all add: GetRowValue_def example_row_def)
  show ?thesis
    by (simp add: ParseZHTMLSTRINGRow_events(1) [OF n] c example_accepted event_of_def event_kinds_def)
qed

text \<open>
  C5, as stated, fails: a row with both timestamps present, the last-modified one being
  the integer 0, produces one event.
\<close>

theorem both_present_one_event:
  "GetRowValue (example_row(''timestamp'' := SqlReal 86400, ''last_modified_time'' := SqlInteger 0))
     ''timestamp'' = SqlReal 86400
   \<and> GetRowValue (example_row(''timestamp'' := SqlReal 86400, ''last_modified_time'' := SqlInteger 0))
     ''last_modified_time'' = SqlInteger 0
   \<and> length (new_events empty_mediator
        (snd (ParseZHTMLSTRINGRow example_parser example_normalizer empty_mediator
               (example_row(''timestamp'' := SqlReal 86400,
                            ''last_modified_time'' := SqlInteger 0))))) = 1"
proof -
  have n: "GetNoteText example_parser
             (GetRowValue (example_row(''timestamp'' := SqlReal 86400,
                                       ''last_modified_time'' := SqlInteger 0)) ''zhtmlstring'')
           = Inr (''   Milk'' @ [newline] @ '' '')"
    using example_note_text by (simp add: GetRowValue_def example_row_def)
  have c: "GetRowValue (example_row(''timestamp'' := SqlReal 86400,
                                   ''last_modified_time'' := SqlInteger 0)) ''timestamp''
             = SqlReal 86400"
    "GetRowValue (example_row(''timestamp'' := SqlReal 86400,
                                   ''last_modified_time'' := SqlInteger 0)) ''last_modified_time''
             = SqlInteger 0"
    by (simp_all add: GetRowValue_def)
  show ?thesis
    by (simp add: ParseZHTMLSTRINGRow_events(1) [OF n] c example_accepted)
qed

text \<open>
  C5, amended. For a row whose markup is sanitized and whose creation timestamp is
  present and accepted: when the last-modified value is absent, or false as zero or the
  empty string are, the handler returns and exactly one event is produced, of kind
  CREATION; when the last-modified value is true and accepted, the handler returns and
  exactly two events are produced, the first of kind CREATION with the creation
  timestamp and the second with the last-modified timestamp.
\<close>

theorem events_of_a_row:
  assumes "GetNoteText parser (GetRowValue row ''zhtmlstring'') = Inr sanitized"
    and "accepted convert (GetRowValue row ''timestamp'')"
  shows "(\<not> truth (GetRowValue row ''last_modified_time'') \<longrightarrow>
            fst (ParseZHTMLSTRINGRow parser convert mediator row) = None
            \<and> map (timestamp_desc \<circ> fst)
                (new_events mediator (snd (ParseZHTMLSTRINGRow parser convert mediator row)))
              = [TIME_DESCRIPTION_CREATION])
       \<and> (truth (GetRowValue row ''last_modified_time'')
            \<and> accepted convert (GetRowValue row ''last_modified_time'') \<longrightarrow>
            fst (ParseZHTMLSTRINGRow parser convert mediator row) = None
            \<and> length (new_events mediator (snd (ParseZHTMLSTRINGRow parser convert mediator row))) = 2
            \<and> timestamp_desc (fst (new_events mediator
                  (snd (ParseZHTMLSTRINGRow parser convert mediator row)) ! 0))
                = TIME_DESCRIPTION_CREATION
            \<and> convert (GetRowValue row ''timestamp'')
                = Inr (timestamp (fst (new_events mediator
                         (snd (ParseZHTMLSTRINGRow parser convert mediator row)) ! 0)))
            \<and> convert (GetRowValue row ''last_modified_time'')
                = Inr (timestamp (fst (new_events mediator
                         (snd (ParseZHTMLSTRINGRow parser convert mediator row)) ! 1))))"
  using assms(2) accepted_timestamp [of convert "GetRowValue row ''last_modified_time''"]
    accepted_timestamp [of convert "GetRowValue row ''timestamp''"]
  by (simp add: ParseZHTMLSTRINGRow_events [OF assms(1)] event_of_def)

theorem events_of_a_row_witness:
  "fst (ParseZHTMLSTRINGRow example_parser example_normalizer empty_mediator example_row) = None
   \<and> map (timestamp_desc \<circ> fst)
        (new_events empty_mediator
          (snd (ParseZHTMLSTRINGRow example_parser example_normalizer empty_mediator example_row)))
       = [TIME_DESCRIPTION_CREATION]
   \<and> length (new_events empty_mediator
        (snd (ParseZHTMLSTRINGRow example_parser example_normalizer empty_mediator
               (example_row(''last_modified_time'' := SqlReal 86400))))) = 2
   \<and> timestamp (fst (new_events empty_mediator
        (snd (ParseZHTMLSTRINGRow example_parser example_normalizer empty_mediator
               (example_row(''last_modified_time'' := SqlReal 86400)))) ! 0))
       = Some 978307200000000"
proof -
  have n: "GetNoteText example_parser (GetRowValue example_row ''zhtmlstring'')
           = Inr (''   Milk'' @ [newline] @ '' '')"
    using example_note_text by (simp add: GetRowValue_def example_row_def)
  have m: "GetNoteText example_parser
             (GetRowValue (example_row(''last_modified_time'' := SqlReal 86400)) ''zhtmlstring'')
           = Inr (''   Milk'' @ [newline] @ '' '')"
    by (simp add: example_row_note_text)
  have a: "accepted example_normalizer (GetRowValue example_row ''timestamp'')"
    "accepted example_normalizer
       (GetRowValue (example_row(''last_modified_time'' := SqlReal 86400)) ''timestamp'')"
    using example_accepted by (simp_all add: GetRowValue_def example_row_def)
  have f: "\<not> truth (GetRowValue example_row ''last_modified_time'')"
    by (simp add: GetRowValue_def example_row_def)
  have t: "truth (GetRowValue (example_row(''last_modified_time'' := SqlReal 86400)) ''last_modified_time'')"
    "accepted example_normalizer
       (GetRowValue (example_row(''last_modified_time'' := SqlReal 86400)) ''last_modified_time'')"
    using example_accepted by (simp_all add: GetRowValue_def)
  have c: "GetRowValue (example_row(''last_modified_time'' := SqlReal 86400)) ''timestamp'' = SqlReal 0"
    by (simp add: GetRowValue_def example_row_def)
  have e: "example_normalizer (SqlReal 0) = Inr (Some 978307200000000)"
    by (simp add: example_normalizer_def example_timestamps_def)
  show ?thesis
    using f t c e events_of_a_row [OF n a(1), of empty_mediator]
      events_of_a_row [OF m a(2), of empty_mediator]
    by simp
qed

subsection \<open>The note text depends on the markup only\<close>

text \<open>
  C8. The note text of every event data is the sanitizer's result on the markup kept in
  the same event data. Two runs of the row handler on rows with the same markup value,
  in any two states of the mediator, with any normalizers and whatever the other
  columns hold, give equal note texts; and when the sanitizer raises on the markup,
  both runs raise that exception and produce nothing.
\<close>

theorem note_text_from_markup_only:
  assumes "GetRowValue row1 ''zhtmlstring'' = GetRowValue row2 ''zhtmlstring''"
  shows "(\<forall>(e1, d1) \<in> set (new_events mediator1
                           (snd (ParseZHTMLSTRINGRow parser convert1 mediator1 row1))).
           GetNoteText parser (zhtmlstring d1) = Inr (note_text d1)
           \<and> (\<forall>(e2, d2) \<in> set (new_events mediator2
                                   (snd (ParseZHTMLSTRINGRow parser convert2 mediator2 row2))).
                note_text d1 = note_text d2))
       \<and> (\<forall>e. GetNoteText parser (GetRowValue row1 ''zhtmlstring'') = Inl e \<longrightarrow>
             ParseZHTMLSTRINGRow parser convert1 mediator1 row1 = (Some e, mediator1)
             \<and> ParseZHTMLSTRINGRow parser convert2 mediator2 row2 = (Some e, mediator2))"
proof (cases "GetNoteText parser (GetRowValue row1 ''zhtmlstring'')")
  case (Inl e)
  then have "ParseZHTMLSTRINGRow parser convert1 mediator1 row1 = (Some e, mediator1)"
    and "ParseZHTMLSTRINGRow parser convert2 mediator2 row2 = (Some e, mediator2)"
    using assms by (simp_all add: ParseZHTMLSTRINGRow_error)
  then show ?thesis using Inl by (simp add: new_events_def)
next
  case (Inr sanitized)
  then have 2: "GetNoteText parser (GetRowValue row2 ''zhtmlstring'') = Inr sanitized"
    using assms by simp
  show ?thesis
    using Inr
    by (auto simp: ParseZHTMLSTRINGRow_events(1) [OF Inr] ParseZHTMLSTRINGRow_events(1) [OF 2]
        split: if_splits)
qed

theorem note_text_from_markup_only_witness:
  "GetRowValue example_row ''zhtmlstring''
     = GetRowValue (example_row(''title'' := SqlNull, ''last_modified_time'' := SqlReal 86400))
         ''zhtmlstring''
   \<and> map (note_text \<circ> snd)
        (new_events empty_mediator
          (snd (ParseZHTMLSTRINGRow example_parser example_normalizer empty_mediator example_row)))
       = [''   Milk'' @ [newline] @ '' '']
   \<and> map (note_text \<circ> snd)
        (new_events
          (snd (ParseZHTMLSTRINGRow example_parser example_normalizer empty_mediator example_row))
          (snd (ParseZHTMLSTRINGRow example_parser example_normalizer
                 (snd (ParseZHTMLSTRINGRow example_parser example_normalizer empty_mediator
                        example_row))
                 (example_row(''title'' := SqlNull, ''last_modified_time'' := SqlReal 86400)))))
       = [''   Milk'' @ [newline] @ '' '', ''   Milk'' @ [newline] @ '' '']"
proof -
  have h: "GetRowValue example_row ''zhtmlstring''
     = GetRowValue (example_row(''title'' := SqlNull, ''last_modified_time'' := SqlReal 86400))
         ''zhtmlstring''"
    by (simp add: GetRowValue_def)
  have n: "GetNoteText example_parser (GetRowValue example_row ''zhtmlstring'')
           = Inr (''   Milk'' @ [newline] @ '' '')"
    using example_note_text by (simp add: GetRowValue_def example_row_def)
  have n2: "GetNoteText example_parser
              (GetRowValue (example_row(''title'' := SqlNull, ''last_modified_time'' := SqlReal 86400))
                 ''zhtmlstring'')
           = Inr (''   Milk'' @ [newline] @ '' '')"
    using n h by simp
  have v: "GetRowValue example_row ''timestamp'' = SqlReal 0"
    "GetRowValue example_row ''last_modified_time'' = SqlNull"
    "GetRowValue (example_row(''title'' := SqlNull, ''last_modified_time'' := SqlReal 86400))
       ''timestamp'' = SqlReal 0"
    "GetRowValue (example_row(''title'' := SqlNull, ''last_modified_time'' := SqlReal 86400))
       ''last_modified_time'' = SqlReal 86400"
    by (simp_all add: GetRowValue_def example_row_def)
  have m: "map (note_text \<circ> snd)
        (new_events empty_mediator
          (snd (ParseZHTMLSTRINGRow example_parser example_normalizer empty_mediator example_row)))
       = [''   Milk'' @ [newline] @ '' '']"
    by (simp add: ParseZHTMLSTRINGRow_events(1) [OF n] v example_accepted)
  have m2: "map (note_text \<circ> snd)
        (new_events
          (snd (ParseZHTMLSTRINGRow example_parser example_normalizer empty_mediator example_row))
          (snd (ParseZHTMLSTRINGRow example_parser example_normalizer
                 (snd (ParseZHTMLSTRINGRow example_parser example_normalizer empty_mediator
                        example_row))
                 (example_row(''title'' := SqlNull, ''last_modified_time'' := SqlReal 86400)))))
       = [''   Milk'' @ [newline] @ '' '', ''   Milk'' @ [newline] @ '' '']"
    by (simp add: ParseZHTMLSTRINGRow_events(1) [OF n2] v example_accepted)
  show ?thesis
    using h m m2 note_text_from_markup_only [OF h, of empty_mediator example_parser
        example_normalizer
        "snd (ParseZHTMLSTRINGRow example_parser example_normalizer empty_mediator example_row)"
        example_normalizer]
    by blast
qed

end
